theory Spec2Isabelle
  imports Complex_Main "HOL-Library.Char_ord" "HOL-Library.List_Lexorder" "HOL-Library.Word"
begin

section \<open>The Excel-to-Postgres pipeline of \<^verbatim>\<open>dags/excel_to_postgres.py\<close>\<close>

text \<open>
  The DAG has three tasks: \<^verbatim>\<open>list_excel_files\<close>, \<^verbatim>\<open>validate_and_transform\<close> and
  \<^verbatim>\<open>load_upsert\<close>. Each is embedded as a HOL function over an explicit world: the
  files under \<^verbatim>\<open>/opt/airflow/data\<close> and the table \<^verbatim>\<open>sales_daily\<close>. A raised exception
  is the \<open>Inl\<close> branch of a sum.
\<close>

subsection \<open>Paths and the three directories\<close>

text \<open>
  A \<^verbatim>\<open>pathlib.Path\<close> is kept as its parent directory and its final component, which is
  what \<^verbatim>\<open>ERROR_DIR / p.name\<close> and \<^verbatim>\<open>p.with_suffix\<close> work on.
\<close>

record path =
  parent :: string
  name :: string

definition BASE_DIR :: string where
  "BASE_DIR = ''/opt/airflow/data''"

definition INCOMING_DIR :: string where
  "INCOMING_DIR = BASE_DIR @ ''/incoming''"

definition ARCHIVE_DIR :: string where
  "ARCHIVE_DIR = BASE_DIR @ ''/archive''"

definition ERROR_DIR :: string where
  "ERROR_DIR = BASE_DIR @ ''/error''"

definition in_dir :: "string \<Rightarrow> string \<Rightarrow> path" where
  \<comment> \<open>\<^verbatim>\<open>DIR / name\<close>\<close>
  "in_dir d n = \<lparr>parent = d, name = n\<rparr>"

subsection \<open>Python string helpers\<close>

definition startswith :: "string \<Rightarrow> string \<Rightarrow> bool" where
  "startswith s pre = (take (length pre) s = pre)"

definition endswith :: "string \<Rightarrow> string \<Rightarrow> bool" where
  "endswith s suf = (length suf \<le> length s \<and> drop (length s - length suf) s = suf)"

text \<open>
  \<^verbatim>\<open>Path.glob\<close> matches each directory entry against the pattern with \<^verbatim>\<open>fnmatch\<close>
  rules, case-sensitively on a POSIX path. The two patterns of the DAG use only
  literal characters and \<^verbatim>\<open>*\<close>, so that is the fragment embedded: the first argument is the
  entry's name, the second the pattern.
\<close>

fun fnmatch :: "string \<Rightarrow> string \<Rightarrow> bool" where
  "fnmatch [] [] = True"
| "fnmatch (c # cs) [] = False"
| "fnmatch [] (p # ps) = (p = CHR ''*'' \<and> fnmatch [] ps)"
| "fnmatch (c # cs) (p # ps) =
     (if p = CHR ''*'' then fnmatch (c # cs) ps \<or> fnmatch cs (p # ps)
      else c = p \<and> fnmatch cs ps)"

definition glob :: "string list \<Rightarrow> string \<Rightarrow> string list" where
  \<comment> \<open>\<^verbatim>\<open>INCOMING_DIR.glob(pattern)\<close> over the names the directory holds\<close>
  "glob entries pattern = filter (\<lambda>n. fnmatch n pattern) entries"

subsection \<open>Errors\<close>

datatype db_step = Connect | CreateStaging | Copy | Merge | Commit

datatype db_reason =
    Unavailable
  | InvalidCopyData
  | NotNullViolation
  | CardinalityViolation

datatype error =
    NoExcelFiles
  | FileNotFoundError path
  | ReadExcelError
  | MissingColumns "string list" "string list"
  | KeyError string
  | ToNumericError
  | IntCastingNaNError
  | EmptyNameError
  | DatabaseError db_step db_reason
  | TransformFailed string error

subsection \<open>Discovery\<close>

definition list_excel_files :: "string list \<Rightarrow> error + path list" where
  "list_excel_files entries =
     (let files = concat (map (glob entries) [''*.xlsx'', ''*.XLSX'']);
          files = filter (\<lambda>f. \<not> startswith f ''~$'') (sort (remdups files))
      in if files = [] then Inl NoExcelFiles
         else Inr (map (in_dir INCOMING_DIR) files))"

subsection \<open>Spreadsheets as pandas reads them\<close>

text \<open>
  \<^verbatim>\<open>pd.read_excel\<close> gives a DataFrame: a header and rows of cells. A cell is empty
  (NaN), a number, a text or a timestamp. Numbers are kept as the rational they denote;
  infinities are not part of the model. A row is a function from column name to cell, so
  every row has a cell for every column.
\<close>

datatype date = Date int nat nat

datatype datetime = Datetime date nat

datatype cell = Blank | Num rat | Txt string | Stamp datetime

datatype float64 = NaN | Float rat

record sheet =
  columns :: "string list"
  rows :: "(string \<Rightarrow> cell) list"

text \<open>
  What pandas and numpy do with a cell that is present is library behaviour the DAG
  does not decide. It is a parameter of the model, so every result below holds whatever
  the library does there. Each conversion sees the whole column, since pandas infers
  types and date formats per column.
  \<^item> \<open>numeric_of\<close>: \<^verbatim>\<open>pd.to_numeric\<close> on a text or timestamp cell; \<open>None\<close> when it
    cannot be parsed.
  \<^item> \<open>datetime_of\<close>: \<^verbatim>\<open>pd.to_datetime(errors="coerce")\<close> on a cell that is not empty;
    \<open>None\<close> is NaT.
  \<^item> \<open>text_of\<close>: \<^verbatim>\<open>astype(str)\<close> on a number or timestamp cell.
  \<^item> \<open>int64_of\<close>: the numpy cast to int64 of a finite value outside the int64 range.
\<close>

record pandas =
  numeric_of :: "cell list \<Rightarrow> cell \<Rightarrow> float64 option"
  datetime_of :: "cell list \<Rightarrow> cell \<Rightarrow> datetime option"
  text_of :: "cell list \<Rightarrow> cell \<Rightarrow> string"
  int64_of :: "rat \<Rightarrow> 64 word"

text \<open>The DataFrame after casting: one record per row, typed as its columns are.\<close>

record norm_row =
  id_col :: int
  salescode :: string
  dateorder :: "date option"
  totalsales :: rat
  brand :: "string option"

definition and_then :: "error + 'a \<Rightarrow> ('a \<Rightarrow> error + 'b) \<Rightarrow> error + 'b" where
  \<comment> \<open>sequencing: an exception of the first step skips the rest\<close>
  "and_then m f = (case m of Inl e \<Rightarrow> Inl e | Inr v \<Rightarrow> f v)"

fun sequence :: "(error + 'a) list \<Rightarrow> error + 'a list" where
  "sequence [] = Inr []"
| "sequence (x # xs) =
     (case x of Inl e \<Rightarrow> Inl e
      | Inr v \<Rightarrow> (case sequence xs of Inl e \<Rightarrow> Inl e | Inr vs \<Rightarrow> Inr (v # vs)))"

definition REQ_COLUMNS :: "(string \<times> string) list" where
  "REQ_COLUMNS =
     [(''id'', ''id''),
      (''name_sales_code'', ''salescode''),
      (''date_order'', ''dateorder''),
      (''amount_total'', ''totalsales''),
      (''brand'', ''brand'')]"

definition select :: "sheet \<Rightarrow> string list \<Rightarrow> error + sheet" where
  \<comment> \<open>\<^verbatim>\<open>df[list_of_names]\<close>\<close>
  "select df cs =
     (case filter (\<lambda>c. c \<notin> set (columns df)) cs of
        [] \<Rightarrow> Inr (df\<lparr>columns := cs\<rparr>)
      | c # _ \<Rightarrow> Inl (KeyError c))"

definition rename :: "sheet \<Rightarrow> (string \<times> string) list \<Rightarrow> sheet" where
  \<comment> \<open>\<^verbatim>\<open>df.rename(columns=mapping)\<close>\<close>
  "rename df m =
     \<lparr>columns = map (\<lambda>c. case map_of m c of Some c' \<Rightarrow> c' | None \<Rightarrow> c) (columns df),
      rows = map (\<lambda>r c'. case map_of (map prod.swap m) c' of Some c \<Rightarrow> r c | None \<Rightarrow> r c')
               (rows df)\<rparr>"

definition getcol :: "sheet \<Rightarrow> string \<Rightarrow> error + cell list" where
  \<comment> \<open>\<^verbatim>\<open>df[name]\<close>\<close>
  "getcol df c =
     (if c \<in> set (columns df) then Inr (map (\<lambda>r. r c) (rows df)) else Inl (KeyError c))"

subsection \<open>The pandas conversions the transform uses\<close>

definition to_numeric :: "pandas \<Rightarrow> cell list \<Rightarrow> cell \<Rightarrow> float64 option" where
  \<comment> \<open>one element of \<^verbatim>\<open>pd.to_numeric\<close>; \<open>None\<close> when the value cannot be parsed\<close>
  "to_numeric P col c =
     (case c of Blank \<Rightarrow> Some NaN | Num q \<Rightarrow> Some (Float q) | _ \<Rightarrow> numeric_of P col c)"

definition to_numeric_raise :: "pandas \<Rightarrow> cell list \<Rightarrow> error + float64 list" where
  "to_numeric_raise P col =
     sequence (map (\<lambda>c. case to_numeric P col c of None \<Rightarrow> Inl ToNumericError
                                              | Some v \<Rightarrow> Inr v) col)"

definition to_numeric_coerce :: "pandas \<Rightarrow> cell list \<Rightarrow> float64 list" where
  "to_numeric_coerce P col =
     map (\<lambda>c. case to_numeric P col c of None \<Rightarrow> NaN | Some v \<Rightarrow> v) col"

definition trunc :: "rat \<Rightarrow> int" where
  "trunc q = (if 0 \<le> q then \<lfloor>q\<rfloor> else \<lceil>q\<rceil>)"

definition astype_int64 :: "pandas \<Rightarrow> float64 list \<Rightarrow> error + int list" where
  \<comment> \<open>NaN cannot be cast to an integer: IntCastingNaNError\<close>
  "astype_int64 P vs =
     sequence (map (\<lambda>v. case v of NaN \<Rightarrow> Inl IntCastingNaNError
                          | Float q \<Rightarrow>
                              Inr (if - (2 ^ 63) \<le> trunc q \<and> trunc q < 2 ^ 63 then trunc q
                                   else sint (int64_of P q))) vs)"

definition astype_str :: "pandas \<Rightarrow> cell list \<Rightarrow> cell \<Rightarrow> string" where
  \<comment> \<open>one element of \<^verbatim>\<open>astype(str)\<close> on an object column (pandas 1 and 2):
      \<^verbatim>\<open>str(float("nan"))\<close> is \<^verbatim>\<open>"nan"\<close>\<close>
  "astype_str P col c = (case c of Blank \<Rightarrow> ''nan'' | Txt s \<Rightarrow> s | _ \<Rightarrow> text_of P col c)"

definition isspace :: "char \<Rightarrow> bool" where
  \<comment> \<open>\<^verbatim>\<open>str.isspace\<close> on the code points a \<open>char\<close> can hold (0 to 255): the ASCII white
      space, the separators 28 to 31, NEL (133) and the no-break space (160)\<close>
  "isspace c =
     (let k = (of_char c :: nat)
      in (9 \<le> k \<and> k \<le> 13) \<or> (28 \<le> k \<and> k \<le> 32) \<or> k = 133 \<or> k = 160)"

definition strip :: "string \<Rightarrow> string" where
  "strip s = rev (dropWhile isspace (rev (dropWhile isspace s)))"

definition to_datetime_coerce :: "pandas \<Rightarrow> cell list \<Rightarrow> datetime option list" where
  "to_datetime_coerce P col =
     map (\<lambda>c. case c of Blank \<Rightarrow> None | _ \<Rightarrow> datetime_of P col c) col"

definition dt_date :: "datetime option \<Rightarrow> date option" where
  \<comment> \<open>\<^verbatim>\<open>.dt.date\<close>: NaT stays missing\<close>
  "dt_date t = (case t of None \<Rightarrow> None | Some (Datetime d _) \<Rightarrow> Some d)"

definition fillna :: "rat \<Rightarrow> float64 \<Rightarrow> rat" where
  "fillna d v = (case v of NaN \<Rightarrow> d | Float q \<Rightarrow> q)"

definition frame ::
  "int list \<Rightarrow> string list \<Rightarrow> date option list \<Rightarrow> rat list \<Rightarrow> string option list \<Rightarrow> norm_row list"
where
  \<comment> \<open>the five cast columns side by side\<close>
  "frame ids scs dos tss brs =
     map (\<lambda>(i, s, d, t, b).
            \<lparr>id_col = i, salescode = s, dateorder = d, totalsales = t, brand = b\<rparr>)
         (zip ids (zip scs (zip dos (zip tss brs))))"

definition dropna :: "norm_row list \<Rightarrow> norm_row list" where
  \<comment> \<open>\<^verbatim>\<open>df.dropna(subset=["id", "dateorder"])\<close>; an int64 \<open>id\<close> is never missing\<close>
  "dropna rs = filter (\<lambda>r. dateorder r \<noteq> None) rs"

subsection \<open>The casting steps of \<^verbatim>\<open>validate_and_transform\<close>\<close>

definition normalize :: "pandas \<Rightarrow> sheet \<Rightarrow> error + norm_row list" where
  \<comment> \<open>lines 63 to 81: header check, subset and rename, the five casts\<close>
  "normalize P df0 =
     (let missing = filter (\<lambda>c. c \<notin> set (columns df0)) (map fst REQ_COLUMNS) in
      if missing \<noteq> [] then Inl (MissingColumns missing (columns df0))
      else
        and_then (select df0 (map fst REQ_COLUMNS)) (\<lambda>df1.
        let df = rename df1 REQ_COLUMNS in
        and_then (getcol df ''id'') (\<lambda>c.
        and_then (to_numeric_raise P c) (\<lambda>v.
        and_then (astype_int64 P v) (\<lambda>ids.
        and_then (getcol df ''salescode'') (\<lambda>c.
        let salescodes = map (\<lambda>x. strip (astype_str P c x)) c in
        and_then (getcol df ''dateorder'') (\<lambda>c.
        let dateorders = map dt_date (to_datetime_coerce P c) in
        and_then (getcol df ''totalsales'') (\<lambda>c.
        let totals = map (fillna 0) (to_numeric_coerce P c) in
        and_then
          (if ''brand'' \<in> set (columns df)
           then and_then (getcol df ''brand'')
                  (\<lambda>c. Inr (map (\<lambda>x. Some (strip (astype_str P c x))) c))
           else Inr (replicate (length (rows df)) None)) (\<lambda>brands.
        Inr (frame ids salescodes dateorders totals brands))))))))))"

definition transform :: "pandas \<Rightarrow> sheet \<Rightarrow> error + norm_row list" where
  \<comment> \<open>lines 63 to 84: the rows that are written to the CSV\<close>
  "transform P df0 = and_then (normalize P df0) (\<lambda>rs. Inr (dropna rs))"

subsection \<open>Files and the table\<close>

text \<open>
  The staging table of \<^verbatim>\<open>load_upsert\<close> has the columns
  \<^verbatim>\<open>(id BIGINT, salescode TEXT, dateorder DATE, totalsales NUMERIC, brand TEXT)\<close>, all
  nullable. A CSV file is kept as the rows \<^verbatim>\<open>COPY ... WITH CSV HEADER\<close> reads from it:
  an empty unquoted field is NULL.
\<close>

record staging_row =
  stg_id :: "int option"
  stg_salescode :: "string option"
  stg_dateorder :: "date option"
  stg_totalsales :: "rat option"
  stg_brand :: "string option"

datatype content = Workbook sheet | Csv "staging_row list" | Other

type_synonym nonkey = "string option \<times> date option \<times> rat option \<times> string option"

text \<open>
  Modelled from the spec: the DDL of \<^verbatim>\<open>sales_daily\<close> is not part of the repository. The
  spec gives \<^verbatim>\<open>sales_daily(id PRIMARY KEY, salescode, dateorder, totalsales, brand)\<close>, and the
  DAG's comment asks for \<^verbatim>\<open>PRIMARY KEY (id)\<close>: the table is a map from \<open>id\<close> to the four
  other columns, typed as the staging table's.
\<close>

type_synonym table = "int \<rightharpoonup> nonkey"

record world =
  fs :: "path \<rightharpoonup> content"
  sales_daily :: table

record payload =
  filepath :: path
  tmp_csv :: path

definition move :: "(path \<rightharpoonup> content) \<Rightarrow> path \<Rightarrow> path \<Rightarrow> error + (path \<rightharpoonup> content)" where
  \<comment> \<open>\<^verbatim>\<open>shutil.move(src, dst)\<close> of a file: an existing \<open>dst\<close> is replaced\<close>
  "move f src dst =
     (case f src of
        None \<Rightarrow> Inl (FileNotFoundError src)
      | Some c \<Rightarrow> Inr ((f(src := None))(dst \<mapsto> c)))"

definition read_excel :: "(path \<rightharpoonup> content) \<Rightarrow> path \<Rightarrow> error + sheet" where
  "read_excel f p =
     (case f p of
        None \<Rightarrow> Inl (FileNotFoundError p)
      | Some (Workbook df) \<Rightarrow> Inr df
      | Some _ \<Rightarrow> Inl ReadExcelError)"

definition rfind :: "string \<Rightarrow> char \<Rightarrow> nat option" where
  \<comment> \<open>\<^verbatim>\<open>s.rfind(c)\<close>, with \<open>None\<close> for \<^verbatim>\<open>-1\<close>\<close>
  "rfind s c =
     (let k = length (takeWhile (\<lambda>x. x \<noteq> c) (rev s))
      in if k = length s then None else Some (length s - 1 - k))"

definition suffix :: "string \<Rightarrow> string" where
  \<comment> \<open>\<^verbatim>\<open>PurePath.suffix\<close> of a final component (Python before 3.14)\<close>
  "suffix n =
     (case rfind n CHR ''.'' of
        None \<Rightarrow> []
      | Some i \<Rightarrow> if 0 < i \<and> i < length n - 1 then drop i n else [])"

definition with_suffix :: "path \<Rightarrow> string \<Rightarrow> error + path" where
  "with_suffix p suf =
     (if name p = [] then Inl EmptyNameError
      else Inr (p\<lparr>name := take (length (name p) - length (suffix (name p))) (name p) @ suf\<rparr>))"

definition csv_text :: "string \<Rightarrow> string option" where
  \<comment> \<open>an empty string is written as an empty unquoted field\<close>
  "csv_text s = (if s = [] then None else Some s)"

definition to_csv :: "norm_row list \<Rightarrow> content" where
  "to_csv rs =
     Csv (map (\<lambda>r. \<lparr>stg_id = Some (id_col r),
                     stg_salescode = csv_text (salescode r),
                     stg_dateorder = dateorder r,
                     stg_totalsales = Some (totalsales r),
                     stg_brand = (case brand r of None \<Rightarrow> None | Some b \<Rightarrow> csv_text b)\<rparr>) rs)"

subsection \<open>The task \<^verbatim>\<open>validate_and_transform\<close>\<close>

definition transform_body :: "pandas \<Rightarrow> (path \<rightharpoonup> content) \<Rightarrow> path \<Rightarrow> error + path \<times> norm_row list" where
  \<comment> \<open>the \<^verbatim>\<open>try\<close> block up to the name of the CSV\<close>
  "transform_body P f p =
     and_then (read_excel f p) (\<lambda>df.
     and_then (transform P df) (\<lambda>out.
     and_then (with_suffix p ''.csv'') (\<lambda>tmp.
     Inr (tmp, out))))"

definition validate_and_transform :: "pandas \<Rightarrow> world \<Rightarrow> path \<Rightarrow> (error + payload) \<times> world" where
  "validate_and_transform P w p =
     (case transform_body P (fs w) p of
        Inr (tmp, out) \<Rightarrow>
          (Inr \<lparr>filepath = p, tmp_csv = tmp\<rparr>, w\<lparr>fs := (fs w)(tmp \<mapsto> to_csv out)\<rparr>)
      | Inl e \<Rightarrow>
          (Inl (TransformFailed (name p) e),
           w\<lparr>fs := (case move (fs w) p (in_dir ERROR_DIR (name p)) of
                       Inr f \<Rightarrow> f
                     | Inl _ \<Rightarrow> fs w)\<rparr>))"

subsection \<open>The task \<^verbatim>\<open>load_upsert\<close>\<close>

definition copy_expert :: "content \<Rightarrow> error + staging_row list" where
  "copy_expert c =
     (case c of Csv rs \<Rightarrow> Inr rs | _ \<Rightarrow> Inl (DatabaseError Copy InvalidCopyData))"

definition nonkey :: "staging_row \<Rightarrow> nonkey" where
  "nonkey r = (stg_salescode r, stg_dateorder r, stg_totalsales r, stg_brand r)"

text \<open>
  \<^verbatim>\<open>INSERT INTO sales_daily ... SELECT ... FROM staging ON CONFLICT (id) DO UPDATE SET ...\<close>:
  every staging row is inserted, or overwrites the four other columns of the row with
  its \<open>id\<close>. PostgreSQL rejects a NULL primary key, and rejects a statement that would
  touch the same row twice. \<open>seen\<close> holds the keys the statement has written.
\<close>

fun upsert :: "int list \<Rightarrow> table \<Rightarrow> staging_row list \<Rightarrow> error + table" where
  "upsert seen t [] = Inr t"
| "upsert seen t (r # rs) =
     (case stg_id r of
        None \<Rightarrow> Inl (DatabaseError Merge NotNullViolation)
      | Some k \<Rightarrow>
          if k \<in> set seen then Inl (DatabaseError Merge CardinalityViolation)
          else upsert (k # seen) (t(k \<mapsto> nonkey r)) rs)"

text \<open>
  The database is outside the program: \<open>fault\<close> names the step, if any, at which the
  server or the connection fails in this run. Nothing is committed before
  \<^verbatim>\<open>conn.commit()\<close>, so a failure leaves the table as it was.
\<close>

definition reach :: "db_step option \<Rightarrow> db_step \<Rightarrow> error + unit" where
  "reach fault s = (if fault = Some s then Inl (DatabaseError s Unavailable) else Inr ())"

definition open_file :: "(path \<rightharpoonup> content) \<Rightarrow> path \<Rightarrow> error + content" where
  "open_file f p = (case f p of None \<Rightarrow> Inl (FileNotFoundError p) | Some c \<Rightarrow> Inr c)"

definition db_work :: "db_step option \<Rightarrow> world \<Rightarrow> path \<Rightarrow> error + table" where
  \<comment> \<open>lines 110 to 156: connect, create the staging table, COPY, merge, commit\<close>
  "db_work fault w tmp =
     and_then (reach fault Connect) (\<lambda>_.
     and_then (reach fault CreateStaging) (\<lambda>_.
     and_then (open_file (fs w) tmp) (\<lambda>c.
     and_then (reach fault Copy) (\<lambda>_.
     and_then (copy_expert c) (\<lambda>staging.
     and_then (reach fault Merge) (\<lambda>_.
     and_then (upsert [] (sales_daily w) staging) (\<lambda>t.
     and_then (reach fault Commit) (\<lambda>_.
     Inr t))))))))"

definition load_upsert :: "db_step option \<Rightarrow> world \<Rightarrow> payload \<Rightarrow> (error + unit) \<times> world" where
  "load_upsert fault w pl =
     (let file_path = filepath pl; tmp = tmp_csv pl in
      case db_work fault w tmp of
        Inl e \<Rightarrow> (Inl e, w)
      | Inr t \<Rightarrow>
          (let f1 = (fs w)(tmp := None) in
           case move f1 file_path (in_dir ARCHIVE_DIR (name file_path)) of
             Inl e \<Rightarrow> (Inl e, w\<lparr>fs := f1, sales_daily := t\<rparr>)
           | Inr f2 \<Rightarrow> (Inr (), w\<lparr>fs := f2, sales_daily := t\<rparr>)))"

subsection \<open>The properties stated about the tasks\<close>

text \<open>
  The names discovery is to return: entries with the extension \<^verbatim>\<open>.xlsx\<close> or \<^verbatim>\<open>.XLSX\<close>
  that do not start with the lock-file marker.
\<close>

definition spreadsheet_names :: "string list \<Rightarrow> string set" where
  "spreadsheet_names entries =
     {n \<in> set entries. (endswith n ''.xlsx'' \<or> endswith n ''.XLSX'') \<and> \<not> startswith n ''~$''}"

definition lower :: "char \<Rightarrow> char" where
  \<comment> \<open>ASCII lower-casing, for comparing an extension without regard to case\<close>
  "lower c =
     (case map_of (zip ''ABCDEFGHIJKLMNOPQRSTUVWXYZ'' ''abcdefghijklmnopqrstuvwxyz'') c of
        Some l \<Rightarrow> l
      | None \<Rightarrow> c)"

definition found :: "string list \<Rightarrow> string list" where
  \<comment> \<open>the list \<^verbatim>\<open>files\<close> of \<^verbatim>\<open>list_excel_files\<close> after line 44\<close>
  "found entries =
     filter (\<lambda>f. \<not> startswith f ''~$'')
       (sort (remdups (concat (map (glob entries) [''*.xlsx'', ''*.XLSX'']))))"

definition colv :: "sheet \<Rightarrow> string \<Rightarrow> cell list" where
  \<comment> \<open>a column of the spreadsheet as read\<close>
  "colv df c = map (\<lambda>r. r c) (rows df)"

subsection \<open>Concrete inputs\<close>

text \<open>
  A pandas that parses no text as a number and keeps timestamps as they are; one row
  builder; one file in the incoming directory.
\<close>

definition strict_pandas :: pandas where
  "strict_pandas =
     \<lparr>numeric_of = (\<lambda>_ _. None),
      datetime_of = (\<lambda>_ c. case c of Stamp t \<Rightarrow> Some t | _ \<Rightarrow> None),
      text_of = (\<lambda>_ _. []),
      int64_of = (\<lambda>_. 0)\<rparr>"

definition mk_row :: "cell \<Rightarrow> cell \<Rightarrow> cell \<Rightarrow> cell \<Rightarrow> cell \<Rightarrow> string \<Rightarrow> cell" where
  "mk_row i s d a b =
     (\<lambda>c. if c = ''id'' then i
          else if c = ''name_sales_code'' then s
          else if c = ''date_order'' then d
          else if c = ''amount_total'' then a
          else if c = ''brand'' then b
          else Blank)"

definition jan2 :: cell where
  "jan2 = Stamp (Datetime (Date 2025 1 2) 0)"

definition header5 :: "string list" where
  "header5 = [''id'', ''name_sales_code'', ''date_order'', ''amount_total'', ''brand'']"

definition sheet_without_brand :: sheet where
  "sheet_without_brand =
     \<lparr>columns = [''id'', ''name_sales_code'', ''date_order'', ''amount_total''],
      rows = [mk_row (Num 1) (Txt ''S1'') jan2 (Num 100) Blank]\<rparr>"

definition sheet_blank_id :: sheet where
  "sheet_blank_id =
     \<lparr>columns = header5,
      rows = [mk_row Blank (Txt ''S1'') jan2 (Num 100) (Txt ''B'')]\<rparr>"

definition sheet_text_id :: sheet where
  "sheet_text_id =
     \<lparr>columns = header5,
      rows = [mk_row (Txt ''abc'') (Txt ''S1'') jan2 (Num 100) (Txt ''B'')]\<rparr>"

definition sheet_negative_total :: sheet where
  "sheet_negative_total =
     \<lparr>columns = header5,
      rows = [mk_row (Num 1) (Txt ''S1'') jan2 (Num (- 5)) (Txt ''B'')]\<rparr>"

definition sheet_text_total :: sheet where
  "sheet_text_total =
     \<lparr>columns = header5,
      rows = [mk_row (Num 1) Blank jan2 (Txt ''abc'') Blank]\<rparr>"

definition sales_xlsx :: path where
  "sales_xlsx = in_dir INCOMING_DIR ''sales.xlsx''"

definition sales_csv :: path where
  "sales_csv = in_dir INCOMING_DIR ''sales.csv''"

definition world_with :: "content \<Rightarrow> world" where
  "world_with c = \<lparr>fs = [sales_xlsx \<mapsto> c], sales_daily = Map.empty\<rparr>"

definition first_row :: staging_row where
  "first_row =
     \<lparr>stg_id = Some 1, stg_salescode = Some ''S1'', stg_dateorder = Some (Date 2025 1 2),
      stg_totalsales = Some 100, stg_brand = Some ''B''\<rparr>"

definition second_row :: staging_row where
  "second_row =
     \<lparr>stg_id = Some 1, stg_salescode = Some ''S2'', stg_dateorder = Some (Date 2025 1 3),
      stg_totalsales = Some 999, stg_brand = None\<rparr>"

definition sales_payload :: payload where
  "sales_payload = \<lparr>filepath = sales_xlsx, tmp_csv = sales_csv\<rparr>"

definition staged_world :: "table \<Rightarrow> staging_row list \<Rightarrow> world" where
  \<comment> \<open>a table state, the input file and the CSV written for it\<close>
  "staged_world t rs =
     \<lparr>fs = [sales_xlsx \<mapsto> Workbook sheet_negative_total, sales_csv \<mapsto> Csv rs],
      sales_daily = t\<rparr>"

section \<open>Auxiliary facts\<close>

lemmas ex_defs = strict_pandas_def mk_row_def jan2_def header5_def

lemmas pd_defs = to_numeric_def to_numeric_raise_def to_numeric_coerce_def astype_int64_def
  astype_str_def strip_def isspace_def to_datetime_coerce_def dt_date_def fillna_def frame_def
  dropna_def trunc_def and_then_def

lemmas tr_defs = normalize_def transform_def select_def rename_def getcol_def REQ_COLUMNS_def

lemmas path_defs = sales_xlsx_def sales_csv_def in_dir_def INCOMING_DIR_def ARCHIVE_DIR_def
  ERROR_DIR_def BASE_DIR_def

subsection \<open>Sequencing\<close>

lemma and_then_Inr: "and_then (Inr v) f = f v"
  by (simp add: and_then_def)

lemma and_then_eq_Inr:
  "and_then m f = Inr y \<longleftrightarrow> (\<exists>v. m = Inr v \<and> f v = Inr y)"
  by (cases m) (simp_all add: and_then_def)

lemma sequence_Inr:
  "sequence xs = Inr vs \<Longrightarrow> xs = map Inr vs"
  by (induction xs arbitrary: vs) (auto split: sum.splits)

lemma sequence_Inl:
  "sequence xs = Inl e \<Longrightarrow> Inl e \<in> set xs"
  by (induction xs) (auto split: sum.splits)

lemma sequence_map_Inr_nth:
  assumes "sequence (map f xs) = Inr ys"
  shows "length ys = length xs" and "\<And>i. i < length xs \<Longrightarrow> f (xs ! i) = Inr (ys ! i)"
proof -
  have eq: "map f xs = map Inr ys"
    using assms by (rule sequence_Inr)
  from arg_cong [OF eq, of length] show len: "length ys = length xs" by simp
  fix i assume i: "i < length xs"
  from arg_cong [OF eq, of "\<lambda>l. l ! i"] i len show "f (xs ! i) = Inr (ys ! i)" by simp
qed

subsection \<open>Discovery\<close>

lemma endswith_iff: "endswith s suf \<longleftrightarrow> (\<exists>zs. s = zs @ suf)"
proof
  assume "endswith s suf"
  then have "s = take (length s - length suf) s @ suf"
    unfolding endswith_def by (metis append_take_drop_id)
  then show "\<exists>zs. s = zs @ suf" ..
next
  assume "\<exists>zs. s = zs @ suf"
  then show "endswith s suf" unfolding endswith_def by auto
qed

lemma endswith_Cons: "endswith (c # cs) suf \<longleftrightarrow> c # cs = suf \<or> endswith cs suf"
  unfolding endswith_iff
  by (metis append_eq_Cons_conv append_Nil append_Cons)

lemma fnmatch_literal: "CHR ''*'' \<notin> set ps \<Longrightarrow> fnmatch n ps \<longleftrightarrow> n = ps"
  by (induction n ps rule: fnmatch.induct) auto

lemma fnmatch_star: "CHR ''*'' \<notin> set ps \<Longrightarrow> fnmatch n (CHR ''*'' # ps) \<longleftrightarrow> endswith n ps"
proof (induction n)
  case Nil
  then show ?case by (cases ps) (auto simp: endswith_def)
next
  case (Cons c cs)
  then show ?case by (simp add: fnmatch_literal endswith_Cons)
qed

lemma glob_xlsx:
  "set (glob entries ''*.xlsx'') = {n \<in> set entries. endswith n ''.xlsx''}"
  "set (glob entries ''*.XLSX'') = {n \<in> set entries. endswith n ''.XLSX''}"
  by (simp_all add: glob_def fnmatch_star)

lemma list_excel_files_found:
  "list_excel_files entries =
     (if found entries = [] then Inl NoExcelFiles
      else Inr (map (in_dir INCOMING_DIR) (found entries)))"
  by (simp add: list_excel_files_def found_def Let_def)

lemma set_found: "set (found entries) = spreadsheet_names entries"
  unfolding found_def spreadsheet_names_def
  by (auto simp: glob_xlsx)

lemma sorted_found: "sorted (found entries)"
  unfolding found_def by (rule sorted_wrt_filter) simp

lemma distinct_found: "distinct (found entries)"
  unfolding found_def by simp

lemma name_in_dir: "map (name \<circ> in_dir d) ns = ns"
  by (induction ns) (simp_all add: in_dir_def)

subsection \<open>The casts, column by column\<close>

lemma normalize_missing:
  "\<not> set (map fst REQ_COLUMNS) \<subseteq> set (columns df) \<Longrightarrow>
   normalize P df =
     Inl (MissingColumns (filter (\<lambda>c. c \<notin> set (columns df)) (map fst REQ_COLUMNS)) (columns df))"
  unfolding normalize_def Let_def
  by (auto simp: filter_empty_conv)

lemma select_required:
  assumes "set (map fst REQ_COLUMNS) \<subseteq> set (columns df)"
  shows "select df (map fst REQ_COLUMNS) = Inr (df\<lparr>columns := map fst REQ_COLUMNS\<rparr>)"
proof -
  have "filter (\<lambda>c. c \<notin> set (columns df)) (map fst REQ_COLUMNS) = []"
    using assms by (auto simp: filter_empty_conv)
  then show ?thesis by (simp add: select_def)
qed

lemma columns_renamed:
  "columns (rename (df\<lparr>columns := map fst REQ_COLUMNS\<rparr>) REQ_COLUMNS) =
     [''id'', ''salescode'', ''dateorder'', ''totalsales'', ''brand'']"
  by (simp add: rename_def REQ_COLUMNS_def)

lemma getcol_renamed:
  fixes df
  defines "df2 \<equiv> rename (df\<lparr>columns := map fst REQ_COLUMNS\<rparr>) REQ_COLUMNS"
  shows "getcol df2 ''id'' = Inr (colv df ''id'')"
    and "getcol df2 ''salescode'' = Inr (colv df ''name_sales_code'')"
    and "getcol df2 ''dateorder'' = Inr (colv df ''date_order'')"
    and "getcol df2 ''totalsales'' = Inr (colv df ''amount_total'')"
    and "getcol df2 ''brand'' = Inr (colv df ''brand'')"
  unfolding df2_def getcol_def columns_renamed
  by (simp_all add: rename_def REQ_COLUMNS_def colv_def comp_def)

lemma normalize_present:
  assumes "set (map fst REQ_COLUMNS) \<subseteq> set (columns df)"
  shows "normalize P df =
     and_then (to_numeric_raise P (colv df ''id'')) (\<lambda>v.
     and_then (astype_int64 P v) (\<lambda>ids.
       Inr (frame ids
              (map (\<lambda>x. strip (astype_str P (colv df ''name_sales_code'') x))
                 (colv df ''name_sales_code''))
              (map dt_date (to_datetime_coerce P (colv df ''date_order'')))
              (map (fillna 0) (to_numeric_coerce P (colv df ''amount_total'')))
              (map (\<lambda>x. Some (strip (astype_str P (colv df ''brand'') x)))
                 (colv df ''brand'')))))"
proof -
  have m: "filter (\<lambda>c. c \<notin> set (columns df)) (map fst REQ_COLUMNS) = []"
    using assms by (auto simp: filter_empty_conv)
  show ?thesis
    unfolding normalize_def Let_def
    by (simp only: m select_required [OF assms] and_then_Inr getcol_renamed columns_renamed)
       (simp add: and_then_Inr)
qed

lemma to_numeric_raise_Inr:
  assumes "to_numeric_raise P col = Inr vs"
  shows "length vs = length col"
    and "\<And>i. i < length col \<Longrightarrow> to_numeric P col (col ! i) = Some (vs ! i)"
proof -
  note s = sequence_map_Inr_nth [OF assms [unfolded to_numeric_raise_def]]
  show "length vs = length col" by (rule s(1))
  fix i assume "i < length col"
  from s(2) [OF this] show "to_numeric P col (col ! i) = Some (vs ! i)"
    by (simp split: option.splits)
qed

lemma to_numeric_raise_Inl:
  assumes "to_numeric_raise P col = Inl e"
  shows "e = ToNumericError"
proof -
  from assms have "Inl e \<in> set (map (\<lambda>c. case to_numeric P col c of
      None \<Rightarrow> Inl ToNumericError | Some v \<Rightarrow> Inr v) col)"
    unfolding to_numeric_raise_def by (rule sequence_Inl)
  then show ?thesis by (auto split: option.splits)
qed

lemma astype_int64_Inr:
  assumes "astype_int64 P vs = Inr ids"
  shows "length ids = length vs" and "NaN \<notin> set vs"
proof -
  note s = sequence_map_Inr_nth [OF assms [unfolded astype_int64_def]]
  show "length ids = length vs" by (rule s(1))
  show "NaN \<notin> set vs"
  proof
    assume "NaN \<in> set vs"
    then obtain i where i: "i < length vs" and n: "vs ! i = NaN"
      by (auto simp: in_set_conv_nth)
    from s(2) [OF i] n show False by simp
  qed
qed

lemma astype_int64_Inl:
  assumes "astype_int64 P vs = Inl e"
  shows "e = IntCastingNaNError"
proof -
  from assms have "Inl e \<in> set (map (\<lambda>v. case v of NaN \<Rightarrow> Inl IntCastingNaNError
                          | Float q \<Rightarrow>
                              Inr (if - (2 ^ 63) \<le> trunc q \<and> trunc q < 2 ^ 63 then trunc q
                                   else sint (int64_of P q))) vs)"
    unfolding astype_int64_def by (rule sequence_Inl)
  then show ?thesis by (auto split: float64.splits)
qed

lemma normalize_Inr:
  assumes "normalize P df = Inr rs"
  obtains v ids where
    "set (map fst REQ_COLUMNS) \<subseteq> set (columns df)"
    "to_numeric_raise P (colv df ''id'') = Inr v"
    "astype_int64 P v = Inr ids"
    "rs = frame ids
              (map (\<lambda>x. strip (astype_str P (colv df ''name_sales_code'') x))
                 (colv df ''name_sales_code''))
              (map dt_date (to_datetime_coerce P (colv df ''date_order'')))
              (map (fillna 0) (to_numeric_coerce P (colv df ''amount_total'')))
              (map (\<lambda>x. Some (strip (astype_str P (colv df ''brand'') x))) (colv df ''brand''))"
proof -
  have sub: "set (map fst REQ_COLUMNS) \<subseteq> set (columns df)"
    using assms normalize_missing [of df P] by auto
  from assms normalize_present [OF sub, of P] that sub show thesis
    by (auto simp: and_then_def split: sum.splits)
qed

lemma frame_length:
  "length ids = n \<Longrightarrow> length scs = n \<Longrightarrow> length dos = n \<Longrightarrow> length tss = n \<Longrightarrow>
   length brs = n \<Longrightarrow> length (frame ids scs dos tss brs) = n"
  by (simp add: frame_def)

lemma frame_nth:
  "length ids = n \<Longrightarrow> length scs = n \<Longrightarrow> length dos = n \<Longrightarrow> length tss = n \<Longrightarrow>
   length brs = n \<Longrightarrow> i < n \<Longrightarrow>
   frame ids scs dos tss brs ! i =
     \<lparr>id_col = ids ! i, salescode = scs ! i, dateorder = dos ! i, totalsales = tss ! i,
      brand = brs ! i\<rparr>"
  by (simp add: frame_def)

lemma normalize_rows:
  assumes "normalize P df = Inr rs"
  shows "length rs = length (rows df)"
    and "\<And>i. i < length (rows df) \<Longrightarrow>
           salescode (rs ! i) =
             strip (astype_str P (colv df ''name_sales_code'') ((rows df ! i) ''name_sales_code''))"
    and "\<And>i. i < length (rows df) \<Longrightarrow>
           dateorder (rs ! i) = dt_date (to_datetime_coerce P (colv df ''date_order'') ! i)"
    and "\<And>i. i < length (rows df) \<Longrightarrow>
           totalsales (rs ! i) = fillna 0 (to_numeric_coerce P (colv df ''amount_total'') ! i)"
    and "\<And>i. i < length (rows df) \<Longrightarrow>
           brand (rs ! i) = Some (strip (astype_str P (colv df ''brand'') ((rows df ! i) ''brand'')))"
proof -
  from assms obtain v ids where
    v: "to_numeric_raise P (colv df ''id'') = Inr v" and
    ids: "astype_int64 P v = Inr ids" and
    rs: "rs = frame ids
              (map (\<lambda>x. strip (astype_str P (colv df ''name_sales_code'') x))
                 (colv df ''name_sales_code''))
              (map dt_date (to_datetime_coerce P (colv df ''date_order'')))
              (map (fillna 0) (to_numeric_coerce P (colv df ''amount_total'')))
              (map (\<lambda>x. Some (strip (astype_str P (colv df ''brand'') x))) (colv df ''brand''))"
    by (rule normalize_Inr)
  have len: "length ids = length (rows df)"
    using to_numeric_raise_Inr(1) [OF v] astype_int64_Inr(1) [OF ids] by (simp add: colv_def)
  have lens: "length (colv df c) = length (rows df)" for c by (simp add: colv_def)
  have lc: "length (to_numeric_coerce P col) = length col" for col
    by (simp add: to_numeric_coerce_def)
  have ld: "length (to_datetime_coerce P col) = length col" for col
    by (simp add: to_datetime_coerce_def)
  show "length rs = length (rows df)"
    unfolding rs by (rule frame_length) (simp_all add: len lens lc ld)
  fix i assume i: "i < length (rows df)"
  have nth: "rs ! i = \<lparr>id_col = ids ! i,
      salescode = map (\<lambda>x. strip (astype_str P (colv df ''name_sales_code'') x))
        (colv df ''name_sales_code'') ! i,
      dateorder = map dt_date (to_datetime_coerce P (colv df ''date_order'')) ! i,
      totalsales = map (fillna 0) (to_numeric_coerce P (colv df ''amount_total'')) ! i,
      brand = map (\<lambda>x. Some (strip (astype_str P (colv df ''brand'') x))) (colv df ''brand'') ! i\<rparr>"
    unfolding rs
    by (rule frame_nth [where n = "length (rows df)"]) (simp_all add: len lens lc ld i)
  show "salescode (rs ! i) =
      strip (astype_str P (colv df ''name_sales_code'') ((rows df ! i) ''name_sales_code''))"
    unfolding nth using i by (simp add: colv_def)
  show "dateorder (rs ! i) = dt_date (to_datetime_coerce P (colv df ''date_order'') ! i)"
    unfolding nth using i by (simp add: ld lens)
  show "totalsales (rs ! i) = fillna 0 (to_numeric_coerce P (colv df ''amount_total'') ! i)"
    unfolding nth using i by (simp add: lc lens)
  show "brand (rs ! i) = Some (strip (astype_str P (colv df ''brand'') ((rows df ! i) ''brand'')))"
    unfolding nth using i by (simp add: colv_def)
qed

lemma transform_Inr:
  "transform P df = Inr out \<Longrightarrow> \<exists>rs. normalize P df = Inr rs \<and> out = dropna rs"
  by (auto simp: transform_def and_then_eq_Inr)

lemma transform_no_null_dateorder:
  "transform P df = Inr out \<Longrightarrow> r \<in> set out \<Longrightarrow> dateorder r \<noteq> None"
  by (auto simp: dropna_def dest!: transform_Inr)

lemma blank_dateorder_is_missing:
  assumes "normalize P df = Inr rs" and "i < length (rows df)"
    and "(rows df ! i) ''date_order'' = Blank"
  shows "dateorder (rs ! i) = None"
  using normalize_rows(3) [OF assms(1,2)] assms(2,3)
  by (simp add: to_datetime_coerce_def colv_def dt_date_def)

subsection \<open>The two tasks that touch files\<close>

lemma dirs_distinct:
  "INCOMING_DIR \<noteq> ARCHIVE_DIR" "INCOMING_DIR \<noteq> ERROR_DIR" "ARCHIVE_DIR \<noteq> ERROR_DIR"
  by (simp_all add: INCOMING_DIR_def ARCHIVE_DIR_def ERROR_DIR_def)

lemma parent_in_dir: "parent (in_dir d n) = d"
  by (simp add: in_dir_def)

lemma with_suffix_parent: "with_suffix p s = Inr t \<Longrightarrow> parent t = parent p"
  by (auto simp: with_suffix_def split: if_splits)

lemma validate_and_transform_Inl:
  assumes "validate_and_transform P w p = (Inl err, w')"
  obtains cause where "transform_body P (fs w) p = Inl cause"
    "err = TransformFailed (name p) cause"
    "w' = w\<lparr>fs := (case move (fs w) p (in_dir ERROR_DIR (name p)) of
                      Inr f \<Rightarrow> f | Inl _ \<Rightarrow> fs w)\<rparr>"
  using assms unfolding validate_and_transform_def
  by (auto split: sum.splits prod.splits)

lemma validate_and_transform_Inr:
  assumes "validate_and_transform P w p = (Inr pl, w')"
  obtains out tmp where "transform_body P (fs w) p = Inr (tmp, out)"
    "pl = \<lparr>filepath = p, tmp_csv = tmp\<rparr>"
    "w' = w\<lparr>fs := (fs w)(tmp \<mapsto> to_csv out)\<rparr>"
  using assms unfolding validate_and_transform_def
  by (auto split: sum.splits prod.splits)

lemma upsert_seen_kept:
  "upsert seen t rs = Inr t' \<Longrightarrow> k \<in> set seen \<Longrightarrow> t' k = t k"
proof (induction rs arbitrary: seen t)
  case Nil
  then show ?case by simp
next
  case (Cons r rs)
  from Cons.prems(1) obtain j where j: "stg_id r = Some j" "j \<notin> set seen"
    and rest: "upsert (j # seen) (t(j \<mapsto> nonkey r)) rs = Inr t'"
    by (auto split: option.splits if_splits)
  from Cons.IH [OF rest] Cons.prems(2) have "t' k = (t(j \<mapsto> nonkey r)) k" by simp
  with j Cons.prems(2) show ?case by auto
qed

lemma upsert_row:
  "upsert seen t rs = Inr t' \<Longrightarrow> r \<in> set rs \<Longrightarrow> stg_id r = Some k \<Longrightarrow>
   t' k = Some (nonkey r)"
proof (induction rs arbitrary: seen t)
  case Nil
  then show ?case by simp
next
  case (Cons x rs)
  from Cons.prems(1) obtain j where j: "stg_id x = Some j" "j \<notin> set seen"
    and rest: "upsert (j # seen) (t(j \<mapsto> nonkey x)) rs = Inr t'"
    by (auto split: option.splits if_splits)
  show ?case
  proof (cases "r = x")
    case True
    with j Cons.prems(3) have "j = k" by simp
    with upsert_seen_kept [OF rest, of k] True show ?thesis by simp
  next
    case False
    with Cons.prems(2) have "r \<in> set rs" by simp
    from Cons.IH [OF rest this Cons.prems(3)] show ?thesis .
  qed
qed

lemma upsert_other:
  "upsert seen t rs = Inr t' \<Longrightarrow> Some k \<notin> stg_id ` set rs \<Longrightarrow> t' k = t k"
proof (induction rs arbitrary: seen t)
  case Nil
  then show ?case by simp
next
  case (Cons x rs)
  from Cons.prems(1) obtain j where j: "stg_id x = Some j" "j \<notin> set seen"
    and rest: "upsert (j # seen) (t(j \<mapsto> nonkey x)) rs = Inr t'"
    by (auto split: option.splits if_splits)
  from Cons.prems(2) j have "j \<noteq> k" and "Some k \<notin> stg_id ` set rs" by auto
  with Cons.IH [OF rest] show ?case by simp
qed

lemma upsert_succeeds:
  "None \<notin> stg_id ` set rs \<Longrightarrow> distinct (map stg_id rs) \<Longrightarrow>
   \<forall>k \<in> set seen. Some k \<notin> stg_id ` set rs \<Longrightarrow> \<exists>t'. upsert seen t rs = Inr t'"
proof (induction rs arbitrary: seen t)
  case Nil
  then show ?case by simp
next
  case (Cons x rs)
  from Cons.prems(1) obtain j where j: "stg_id x = Some j" by (cases "stg_id x") auto
  with Cons.prems(3) have ns: "j \<notin> set seen" by auto
  have "\<forall>k \<in> set (j # seen). Some k \<notin> stg_id ` set rs"
    using Cons.prems(2,3) j by auto
  with Cons.IH [of "j # seen"] Cons.prems(1,2)
  obtain t' where "upsert (j # seen) (t(j \<mapsto> nonkey x)) rs = Inr t'"
    by (metis distinct.simps(2) image_insert insertCI list.simps(15) list.simps(9))
  with j ns show ?case by simp
qed

lemma db_work_Inr:
  assumes "db_work fault w tmp = Inr t"
  obtains rs where "fs w tmp = Some (Csv rs)" "upsert [] (sales_daily w) rs = Inr t"
    "fault = None"
proof -
  from assms obtain c staging where
    r: "reach fault Connect = Inr ()" "reach fault CreateStaging = Inr ()"
       "reach fault Copy = Inr ()" "reach fault Merge = Inr ()" "reach fault Commit = Inr ()" and
    o: "open_file (fs w) tmp = Inr c" and c: "copy_expert c = Inr staging" and
    u: "upsert [] (sales_daily w) staging = Inr t"
    unfolding db_work_def by (auto simp: and_then_eq_Inr)
  from o have "fs w tmp = Some c" by (auto simp: open_file_def split: option.splits)
  moreover from c have "c = Csv staging" by (auto simp: copy_expert_def split: content.splits)
  moreover have "fault = None"
  proof (cases fault)
    case (Some s)
    with r show ?thesis by (cases s) (auto simp: reach_def)
  qed simp
  ultimately show thesis using u that by simp
qed

lemma load_upsert_Inr:
  assumes "load_upsert fault w pl = (Inr (), w')"
  obtains t c where
    "db_work fault w (tmp_csv pl) = Inr t"
    "((fs w)(tmp_csv pl := None)) (filepath pl) = Some c"
    "w' = w\<lparr>fs := ((fs w)(tmp_csv pl := None, filepath pl := None))
                    (in_dir ARCHIVE_DIR (name (filepath pl)) \<mapsto> c),
             sales_daily := t\<rparr>"
  using assms unfolding load_upsert_def Let_def move_def
  by (auto split: sum.splits option.splits)

lemma load_upsert_Inl:
  assumes "load_upsert fault w pl = (Inl e, w')"
  shows "(db_work fault w (tmp_csv pl) = Inl e \<and> w' = w) \<or>
         (\<exists>t. db_work fault w (tmp_csv pl) = Inr t \<and> e = FileNotFoundError (filepath pl))"
  using assms unfolding load_upsert_def Let_def move_def
  by (auto split: sum.splits option.splits)

section \<open>Discovery\<close>

text \<open>
  C6. For every state of the incoming directory, \<^verbatim>\<open>list_excel_files\<close> returns the
  sorted, duplicate-free list of the spreadsheet paths whose names do not start with
  \<^verbatim>\<open>~$\<close>, and it raises exactly when that list is empty.
\<close>

theorem discovery_sorted_deduplicated:
  "(list_excel_files entries = Inl NoExcelFiles \<longleftrightarrow> spreadsheet_names entries = {}) \<and>
   (\<forall>e. list_excel_files entries = Inl e \<longrightarrow> e = NoExcelFiles) \<and>
   (\<forall>ps. list_excel_files entries = Inr ps \<longrightarrow>
      sorted (map name ps) \<and> distinct ps \<and>
      set ps = in_dir INCOMING_DIR ` spreadsheet_names entries \<and>
      (\<forall>p \<in> set ps. \<not> startswith (name p) ''~$''))"
proof -
  have e: "found entries = [] \<longleftrightarrow> spreadsheet_names entries = {}"
    using set_found [of entries] by (metis set_empty)
  have lock: "\<forall>n \<in> spreadsheet_names entries. \<not> startswith n ''~$''"
    by (simp add: spreadsheet_names_def)
  show ?thesis
    unfolding list_excel_files_found
    using lock
    by (auto simp: e name_in_dir sorted_found distinct_found distinct_map set_found
        inj_on_def in_dir_def)
qed

theorem discovery_sorted_deduplicated_witness:
  "list_excel_files [''b.xlsx'', ''~$b.xlsx'', ''a.XLSX'', ''notes.txt'', ''b.xlsx''] =
     Inr [in_dir INCOMING_DIR ''a.XLSX'', in_dir INCOMING_DIR ''b.xlsx''] \<and>
   sorted (map name [in_dir INCOMING_DIR ''a.XLSX'', in_dir INCOMING_DIR ''b.xlsx'']) \<and>
   distinct [in_dir INCOMING_DIR ''a.XLSX'', in_dir INCOMING_DIR ''b.xlsx''] \<and>
   list_excel_files [''~$b.xlsx'', ''notes.txt''] = Inl NoExcelFiles \<and>
   spreadsheet_names [''~$b.xlsx'', ''notes.txt''] = {}"
proof -
  have a: "list_excel_files [''b.xlsx'', ''~$b.xlsx'', ''a.XLSX'', ''notes.txt'', ''b.xlsx''] =
     Inr [in_dir INCOMING_DIR ''a.XLSX'', in_dir INCOMING_DIR ''b.xlsx'']"
    by (simp add: list_excel_files_def glob_def startswith_def)
  have b: "list_excel_files [''~$b.xlsx'', ''notes.txt''] = Inl NoExcelFiles"
    by (simp add: list_excel_files_def glob_def startswith_def)
  from discovery_sorted_deduplicated
    [of "[''b.xlsx'', ''~$b.xlsx'', ''a.XLSX'', ''notes.txt'', ''b.xlsx'']"] a
  have "sorted (map name [in_dir INCOMING_DIR ''a.XLSX'', in_dir INCOMING_DIR ''b.xlsx'']) \<and>
   distinct [in_dir INCOMING_DIR ''a.XLSX'', in_dir INCOMING_DIR ''b.xlsx'']"
    by simp
  moreover from discovery_sorted_deduplicated [of "[''~$b.xlsx'', ''notes.txt'']"] b
  have "spreadsheet_names [''~$b.xlsx'', ''notes.txt''] = {}" by simp
  ultimately show ?thesis using a b by simp
qed

text \<open>
  C7, as stated: every name whose extension is \<^verbatim>\<open>.xlsx\<close> in any mix of cases is
  discovered. The two glob patterns are matched case-sensitively: \<^verbatim>\<open>a.Xlsx\<close> is left
  out of the result.
\<close>

theorem extension_case_counterexample:
  "endswith (map lower ''a.Xlsx'') ''.xlsx'' \<and> \<not> startswith ''a.Xlsx'' ''~$'' \<and>
   list_excel_files [''a.Xlsx'', ''b.xlsx''] = Inr [in_dir INCOMING_DIR ''b.xlsx'']"
  by (simp add: list_excel_files_def glob_def startswith_def endswith_def lower_def)

text \<open>
  C7, amended. Every file name in the incoming directory that ends in exactly
  \<^verbatim>\<open>.xlsx\<close> or exactly \<^verbatim>\<open>.XLSX\<close> and does not start with \<^verbatim>\<open>~$\<close> is in the discovery
  output.
\<close>

theorem exact_extension_included:
  assumes "n \<in> set entries" and "endswith n ''.xlsx'' \<or> endswith n ''.XLSX''"
    and "\<not> startswith n ''~$''"
  shows "\<exists>ps. list_excel_files entries = Inr ps \<and> in_dir INCOMING_DIR n \<in> set ps"
proof -
  from assms have "n \<in> set (found entries)"
    by (simp add: set_found spreadsheet_names_def)
  then show ?thesis
    unfolding list_excel_files_found by auto
qed

theorem exact_extension_included_witness:
  "''a.XLSX'' \<in> set [''b.xlsx'', ''a.XLSX''] \<and> endswith ''a.XLSX'' ''.XLSX'' \<and>
   \<not> startswith ''a.XLSX'' ''~$'' \<and>
   (\<exists>ps. list_excel_files [''b.xlsx'', ''a.XLSX''] = Inr ps \<and>
         in_dir INCOMING_DIR ''a.XLSX'' \<in> set ps)"
proof -
  have h: "''a.XLSX'' \<in> set [''b.xlsx'', ''a.XLSX'']"
    "endswith ''a.XLSX'' ''.xlsx'' \<or> endswith ''a.XLSX'' ''.XLSX''"
    "\<not> startswith ''a.XLSX'' ''~$''"
    by (simp_all add: endswith_def startswith_def)
  from exact_extension_included [OF h] h show ?thesis by (simp add: endswith_def)
qed

section \<open>Validate and transform\<close>

text \<open>
  C2. The claim: a spreadsheet with \<^verbatim>\<open>id\<close>, \<^verbatim>\<open>name_sales_code\<close>, \<^verbatim>\<open>date_order\<close> and
  \<^verbatim>\<open>amount_total\<close> but no \<^verbatim>\<open>brand\<close> is accepted and gets a null brand. The code: the
  header check runs over all keys of \<^verbatim>\<open>REQ_COLUMNS\<close>, \<^verbatim>\<open>brand\<close> included, so every such
  file is rejected with \<^verbatim>\<open>brand\<close> reported missing.
\<close>

theorem brand_absent_is_rejected:
  assumes "fs w p = Some (Workbook df)" and "''brand'' \<notin> set (columns df)"
  shows "\<exists>m. fst (validate_and_transform P w p) =
               Inl (TransformFailed (name p) (MissingColumns m (columns df))) \<and>
             ''brand'' \<in> set m"
proof -
  let ?m = "filter (\<lambda>c. c \<notin> set (columns df)) (map fst REQ_COLUMNS)"
  have "\<not> set (map fst REQ_COLUMNS) \<subseteq> set (columns df)"
    using assms(2) by (auto simp: REQ_COLUMNS_def)
  then have "transform P df = Inl (MissingColumns ?m (columns df))"
    by (simp add: transform_def normalize_missing and_then_def)
  then have "transform_body P (fs w) p = Inl (MissingColumns ?m (columns df))"
    by (simp add: transform_body_def read_excel_def assms(1) and_then_def)
  then have "fst (validate_and_transform P w p) =
      Inl (TransformFailed (name p) (MissingColumns ?m (columns df)))"
    by (simp add: validate_and_transform_def)
  moreover have "''brand'' \<in> set ?m"
    using assms(2) by (simp add: REQ_COLUMNS_def)
  ultimately show ?thesis by blast
qed

theorem brand_absent_is_rejected_witness:
  "fs (world_with (Workbook sheet_without_brand)) sales_xlsx = Some (Workbook sheet_without_brand) \<and>
   ''brand'' \<notin> set (columns sheet_without_brand) \<and>
   fst (validate_and_transform strict_pandas (world_with (Workbook sheet_without_brand)) sales_xlsx) =
     Inl (TransformFailed ''sales.xlsx''
            (MissingColumns [''brand''] [''id'', ''name_sales_code'', ''date_order'', ''amount_total'']))"
proof -
  have h: "fs (world_with (Workbook sheet_without_brand)) sales_xlsx =
      Some (Workbook sheet_without_brand)"
    "''brand'' \<notin> set (columns sheet_without_brand)"
    by (simp_all add: world_with_def sheet_without_brand_def)
  from brand_absent_is_rejected [OF h, of strict_pandas] obtain m where
    m: "fst (validate_and_transform strict_pandas (world_with (Workbook sheet_without_brand))
          sales_xlsx) =
        Inl (TransformFailed (name sales_xlsx) (MissingColumns m (columns sheet_without_brand)))"
    by blast
  have t: "transform strict_pandas sheet_without_brand =
      Inl (MissingColumns [''brand''] [''id'', ''name_sales_code'', ''date_order'', ''amount_total''])"
    by (simp add: sheet_without_brand_def ex_defs pd_defs tr_defs)
  have "transform_body strict_pandas (fs (world_with (Workbook sheet_without_brand))) sales_xlsx =
      Inl (MissingColumns [''brand''] [''id'', ''name_sales_code'', ''date_order'', ''amount_total''])"
    by (simp add: transform_body_def read_excel_def h(1) t and_then_def)
  then have "fst (validate_and_transform strict_pandas (world_with (Workbook sheet_without_brand))
          sales_xlsx) =
     Inl (TransformFailed ''sales.xlsx''
            (MissingColumns [''brand''] [''id'', ''name_sales_code'', ''date_order'', ''amount_total'']))"
    unfolding validate_and_transform_def by (simp add: sales_xlsx_def in_dir_def)
  with h m show ?thesis by simp
qed

text \<open>
  C3. The claim: a row whose \<^verbatim>\<open>id\<close> is missing is dropped, not an error. The code: the
  cast of the \<^verbatim>\<open>id\<close> column to int64 on line 74 raises on a missing value, before
  \<^verbatim>\<open>dropna\<close> on line 84 is reached, so one row with an empty \<^verbatim>\<open>id\<close> fails the whole file.
\<close>

theorem blank_id_fails_the_file:
  assumes "set (map fst REQ_COLUMNS) \<subseteq> set (columns df)"
    and "i < length (rows df)" and "(rows df ! i) ''id'' = Blank"
  shows "transform P df = Inl ToNumericError \<or> transform P df = Inl IntCastingNaNError"
proof (cases "to_numeric_raise P (colv df ''id'')")
  case (Inl e)
  then have "e = ToNumericError" by (rule to_numeric_raise_Inl)
  with Inl show ?thesis
    by (simp add: transform_def normalize_present [OF assms(1)] and_then_def)
next
  case (Inr v)
  have i: "i < length (colv df ''id'')" using assms(2) by (simp add: colv_def)
  from to_numeric_raise_Inr(2) [OF Inr i] assms(2,3)
  have "v ! i = NaN" by (simp add: colv_def to_numeric_def)
  moreover have "i < length v" using to_numeric_raise_Inr(1) [OF Inr] i by simp
  ultimately have nan: "NaN \<in> set v" by (metis nth_mem)
  show ?thesis
  proof (cases "astype_int64 P v")
    case (Inl e)
    then have "e = IntCastingNaNError" by (rule astype_int64_Inl)
    with Inl Inr show ?thesis
      by (simp add: transform_def normalize_present [OF assms(1)] and_then_def)
  next
    case (Inr ids)
    from astype_int64_Inr(2) [OF this] nan show ?thesis by simp
  qed
qed

theorem blank_id_fails_the_file_witness:
  "set (map fst REQ_COLUMNS) \<subseteq> set (columns sheet_blank_id) \<and>
   0 < length (rows sheet_blank_id) \<and> (rows sheet_blank_id ! 0) ''id'' = Blank \<and>
   transform strict_pandas sheet_blank_id = Inl IntCastingNaNError"
proof -
  have h: "set (map fst REQ_COLUMNS) \<subseteq> set (columns sheet_blank_id)"
    "0 < length (rows sheet_blank_id)" "(rows sheet_blank_id ! 0) ''id'' = Blank"
    by (simp_all add: sheet_blank_id_def REQ_COLUMNS_def ex_defs)
  have "transform strict_pandas sheet_blank_id \<noteq> Inl ToNumericError"
    by (simp add: sheet_blank_id_def ex_defs pd_defs tr_defs)
  with blank_id_fails_the_file [OF h, of strict_pandas] h show ?thesis by simp
qed

text \<open>
  C5. Whenever \<^verbatim>\<open>validate_and_transform\<close> raises, the exception is a RuntimeError that
  carries the original one as its cause, the input file is moved to the error directory
  if it can be moved (a failing move is swallowed and changes nothing), and no other path
  outside the error directory changes; the table is untouched.
\<close>

theorem transform_failure_moves_file_to_error:
  assumes "validate_and_transform P w p = (Inl err, w')"
  shows "(\<exists>cause. transform_body P (fs w) p = Inl cause \<and>
                  err = TransformFailed (name p) cause) \<and>
         sales_daily w' = sales_daily w \<and>
         (case fs w p of
            None \<Rightarrow> fs w' = fs w
          | Some c \<Rightarrow> fs w' = (fs w)(p := None, in_dir ERROR_DIR (name p) \<mapsto> c)) \<and>
         (\<forall>q. q \<noteq> p \<and> parent q \<noteq> ERROR_DIR \<longrightarrow> fs w' q = fs w q)"
proof -
  from assms obtain cause where
    c: "transform_body P (fs w) p = Inl cause" "err = TransformFailed (name p) cause" and
    w': "w' = w\<lparr>fs := (case move (fs w) p (in_dir ERROR_DIR (name p)) of
                         Inr f \<Rightarrow> f | Inl _ \<Rightarrow> fs w)\<rparr>"
    by (rule validate_and_transform_Inl)
  show ?thesis
  proof (cases "fs w p")
    case None
    with c w' show ?thesis by (simp add: move_def)
  next
    case (Some content)
    with c w' show ?thesis by (auto simp: move_def in_dir_def)
  qed
qed

theorem transform_failure_moves_file_to_error_witness:
  "fst (validate_and_transform strict_pandas (world_with (Workbook sheet_text_id)) sales_xlsx) =
     Inl (TransformFailed ''sales.xlsx'' ToNumericError) \<and>
   fs (snd (validate_and_transform strict_pandas (world_with (Workbook sheet_text_id)) sales_xlsx))
     sales_xlsx = None \<and>
   fs (snd (validate_and_transform strict_pandas (world_with (Workbook sheet_text_id)) sales_xlsx))
     (in_dir ERROR_DIR ''sales.xlsx'') = Some (Workbook sheet_text_id)"
proof -
  let ?w = "world_with (Workbook sheet_text_id)"
  let ?r = "validate_and_transform strict_pandas ?w sales_xlsx"
  have t: "transform strict_pandas sheet_text_id = Inl ToNumericError"
    by (simp add: sheet_text_id_def ex_defs pd_defs tr_defs)
  have f: "fs ?w sales_xlsx = Some (Workbook sheet_text_id)"
    by (simp add: world_with_def)
  have b: "transform_body strict_pandas (fs ?w) sales_xlsx = Inl ToNumericError"
    by (simp add: transform_body_def read_excel_def f t and_then_def)
  have fr: "fst ?r = Inl (TransformFailed ''sales.xlsx'' ToNumericError)"
    unfolding validate_and_transform_def b by (simp add: sales_xlsx_def in_dir_def)
  then have r: "?r = (Inl (TransformFailed ''sales.xlsx'' ToNumericError), snd ?r)"
    by (metis prod.collapse)
  have ne: "sales_xlsx \<noteq> in_dir ERROR_DIR ''sales.xlsx''"
    by (simp add: sales_xlsx_def in_dir_def INCOMING_DIR_def ERROR_DIR_def)
  from transform_failure_moves_file_to_error [OF r] f ne fr show ?thesis
    by (simp add: sales_xlsx_def in_dir_def)
qed

text \<open>
  C8, as stated: the \<^verbatim>\<open>totalsales\<close> of every normalized record is zero or positive. No
  step of the transform looks at the sign: an \<^verbatim>\<open>amount_total\<close> of \<open>-5\<close> is kept.
\<close>

theorem totalsales_negative_counterexample:
  "transform strict_pandas sheet_negative_total =
     Inr [\<lparr>id_col = 1, salescode = ''S1'', dateorder = Some (Date 2025 1 2),
           totalsales = - 5, brand = Some ''B''\<rparr>] \<and>
   \<not> (0 :: rat) \<le> - 5"
  by (simp add: sheet_negative_total_def ex_defs pd_defs tr_defs)

text \<open>
  C8, amended. For every input row the normalized record's \<^verbatim>\<open>totalsales\<close> is a number,
  never missing: an \<^verbatim>\<open>amount_total\<close> that is empty or cannot be parsed as a number (such
  as \<^verbatim>\<open>"abc"\<close>) gives \<open>0\<close> and raises nothing, and a number is kept as it is, whatever its
  sign. Raising nothing is part of the statement: once the required columns are present
  and the \<^verbatim>\<open>id\<close> column casts to int64, the casts and the whole transform return,
  whatever the \<^verbatim>\<open>amount_total\<close> column holds.
\<close>

theorem totalsales_defaults_to_zero:
  assumes "set (map fst REQ_COLUMNS) \<subseteq> set (columns df)"
    and "to_numeric_raise P (colv df ''id'') = Inr v" and "astype_int64 P v = Inr ids"
    and "i < length (rows df)"
  shows "\<exists>rs. normalize P df = Inr rs \<and> transform P df = Inr (dropna rs) \<and>
              length rs = length (rows df) \<and>
              totalsales (rs ! i) =
                (case to_numeric P (colv df ''amount_total'') ((rows df ! i) ''amount_total'') of
                   Some (Float q) \<Rightarrow> q
                 | _ \<Rightarrow> 0)"
proof -
  let ?rs = "frame ids
      (map (\<lambda>x. strip (astype_str P (colv df ''name_sales_code'') x)) (colv df ''name_sales_code''))
      (map dt_date (to_datetime_coerce P (colv df ''date_order'')))
      (map (fillna 0) (to_numeric_coerce P (colv df ''amount_total'')))
      (map (\<lambda>x. Some (strip (astype_str P (colv df ''brand'') x))) (colv df ''brand''))"
  have n: "normalize P df = Inr ?rs"
    by (simp add: normalize_present [OF assms(1)] assms(2,3) and_then_Inr)
  then have t: "transform P df = Inr (dropna ?rs)"
    by (simp add: transform_def and_then_Inr)
  have "totalsales (?rs ! i) =
      (case to_numeric P (colv df ''amount_total'') ((rows df ! i) ''amount_total'') of
         Some (Float q) \<Rightarrow> q
       | _ \<Rightarrow> 0)"
    using normalize_rows(4) [OF n assms(4)] assms(4)
    by (simp add: to_numeric_coerce_def colv_def fillna_def split: option.splits float64.splits)
  with n t normalize_rows(1) [OF n] show ?thesis by blast
qed

theorem totalsales_defaults_to_zero_witness:
  "set (map fst REQ_COLUMNS) \<subseteq> set (columns sheet_text_total) \<and>
   to_numeric_raise strict_pandas (colv sheet_text_total ''id'') = Inr [Float 1] \<and>
   astype_int64 strict_pandas [Float 1] = Inr [1] \<and>
   0 < length (rows sheet_text_total) \<and>
   (rows sheet_text_total ! 0) ''amount_total'' = Txt ''abc'' \<and>
   to_numeric strict_pandas (colv sheet_text_total ''amount_total'') (Txt ''abc'') = None \<and>
   (\<exists>rs. normalize strict_pandas sheet_text_total = Inr rs \<and>
         transform strict_pandas sheet_text_total = Inr (dropna rs) \<and>
         totalsales (rs ! 0) = 0)"
proof -
  have c: "set (map fst REQ_COLUMNS) \<subseteq> set (columns sheet_text_total)"
    by (simp add: sheet_text_total_def REQ_COLUMNS_def header5_def)
  have v: "to_numeric_raise strict_pandas (colv sheet_text_total ''id'') = Inr [Float 1]"
    by (simp add: sheet_text_total_def colv_def ex_defs to_numeric_raise_def to_numeric_def)
  have ids: "astype_int64 strict_pandas [Float 1] = Inr [1]"
    by (simp add: astype_int64_def trunc_def)
  have i: "0 < length (rows sheet_text_total)"
    by (simp add: sheet_text_total_def)
  have a: "(rows sheet_text_total ! 0) ''amount_total'' = Txt ''abc''"
    by (simp add: sheet_text_total_def mk_row_def)
  have u: "to_numeric strict_pandas (colv sheet_text_total ''amount_total'') (Txt ''abc'') = None"
    by (simp add: to_numeric_def strict_pandas_def)
  from totalsales_defaults_to_zero [OF c v ids i] have
    "\<exists>rs. normalize strict_pandas sheet_text_total = Inr rs \<and>
         transform strict_pandas sheet_text_total = Inr (dropna rs) \<and>
         totalsales (rs ! 0) = 0"
    by (auto simp: a u)
  with c v ids i a u show ?thesis by simp
qed

text \<open>
  C10. A missing \<^verbatim>\<open>name_sales_code\<close> or \<^verbatim>\<open>brand\<close> cell is cast to text before it is
  trimmed, and nothing checks these two columns for missing values: the normalized record
  holds the text \<^verbatim>\<open>nan\<close>, not a null.
\<close>

theorem missing_text_becomes_nan:
  assumes "normalize P df = Inr rs" and "i < length (rows df)"
  shows "length rs = length (rows df) \<and>
         salescode (rs ! i) =
           strip (astype_str P (colv df ''name_sales_code'') ((rows df ! i) ''name_sales_code'')) \<and>
         brand (rs ! i) =
           Some (strip (astype_str P (colv df ''brand'') ((rows df ! i) ''brand''))) \<and>
         ((rows df ! i) ''name_sales_code'' = Blank \<longrightarrow> salescode (rs ! i) = ''nan'') \<and>
         ((rows df ! i) ''brand'' = Blank \<longrightarrow> brand (rs ! i) = Some ''nan'')"
proof -
  have s: "strip (astype_str P col Blank) = ''nan''" for col
    by (simp add: astype_str_def strip_def isspace_def)
  from normalize_rows(1,2,5) [OF assms(1)] assms(2) show ?thesis
    by (simp add: s)
qed

theorem missing_text_becomes_nan_witness:
  "normalize strict_pandas sheet_text_total =
     Inr [\<lparr>id_col = 1, salescode = ''nan'', dateorder = Some (Date 2025 1 2),
           totalsales = 0, brand = Some ''nan''\<rparr>] \<and>
   (rows sheet_text_total ! 0) ''name_sales_code'' = Blank \<and>
   (rows sheet_text_total ! 0) ''brand'' = Blank \<and>
   transform strict_pandas sheet_text_total =
     Inr [\<lparr>id_col = 1, salescode = ''nan'', dateorder = Some (Date 2025 1 2),
           totalsales = 0, brand = Some ''nan''\<rparr>]"
proof -
  have n: "normalize strict_pandas sheet_text_total =
     Inr [\<lparr>id_col = 1, salescode = ''nan'', dateorder = Some (Date 2025 1 2),
           totalsales = 0, brand = Some ''nan''\<rparr>]"
    by (simp add: sheet_text_total_def ex_defs pd_defs tr_defs)
  have i: "0 < length (rows sheet_text_total)"
    by (simp add: sheet_text_total_def)
  from missing_text_becomes_nan [OF n i] show ?thesis
    using n by (simp add: sheet_text_total_def ex_defs transform_def and_then_def dropna_def)
qed

section \<open>Load and upsert\<close>

lemmas load_defs = load_upsert_def db_work_def reach_def open_file_def copy_expert_def move_def
  and_then_def staged_world_def sales_payload_def

text \<open>
  C1. Whatever the table holds, a load that goes through leaves, for every \<open>id\<close> in the
  loaded rows, the table row of that \<open>id\<close> equal to the loaded values: the four other
  columns are overwritten on a conflict. As this holds from every table state, it holds
  for the state an earlier load of the same \<open>id\<close> left behind: the row then matches the
  second load.
\<close>

theorem load_upsert_overwrites_row:
  assumes "load_upsert fault w pl = (Inr (), w')"
    and "fs w (tmp_csv pl) = Some (Csv rs)" and "r \<in> set rs" and "stg_id r = Some k"
  shows "sales_daily w' k = Some (nonkey r)"
proof -
  from assms(1) obtain t c where
    db: "db_work fault w (tmp_csv pl) = Inr t" and
    w': "w' = w\<lparr>fs := ((fs w)(tmp_csv pl := None, filepath pl := None))
                     (in_dir ARCHIVE_DIR (name (filepath pl)) \<mapsto> c),
              sales_daily := t\<rparr>"
    by (rule load_upsert_Inr)
  from db obtain rs' where "fs w (tmp_csv pl) = Some (Csv rs')"
    and u: "upsert [] (sales_daily w) rs' = Inr t"
    by (rule db_work_Inr)
  with assms(2) have "rs' = rs" by simp
  with u have "upsert [] (sales_daily w) rs = Inr t" by simp
  from upsert_row [OF this assms(3,4)] w' show ?thesis by simp
qed

theorem load_upsert_overwrites_row_witness:
  "fst (load_upsert None (staged_world Map.empty [first_row]) sales_payload) = Inr () \<and>
   sales_daily (snd (load_upsert None (staged_world Map.empty [first_row]) sales_payload)) 1 =
     Some (nonkey first_row) \<and>
   fst (load_upsert None
         (staged_world
            (sales_daily (snd (load_upsert None (staged_world Map.empty [first_row]) sales_payload)))
            [second_row])
         sales_payload) = Inr () \<and>
   sales_daily
     (snd (load_upsert None
            (staged_world
               (sales_daily (snd (load_upsert None (staged_world Map.empty [first_row]) sales_payload)))
               [second_row])
            sales_payload)) 1 =
     Some (nonkey second_row) \<and>
   nonkey second_row \<noteq> nonkey first_row"
proof -
  have ok: "fst (load_upsert None (staged_world t [r]) sales_payload) = Inr ()"
    if "stg_id r = Some 1" for t r
    using that by (simp add: load_defs path_defs)
  have run: "load_upsert None (staged_world t [r]) sales_payload =
      (Inr (), snd (load_upsert None (staged_world t [r]) sales_payload))"
    if "stg_id r = Some 1" for t r
    using ok [OF that, of t] by (metis prod.collapse)
  have csv: "fs (staged_world t rs) (tmp_csv sales_payload) = Some (Csv rs)" for t rs
    by (simp add: staged_world_def sales_payload_def path_defs)
  have id1: "stg_id first_row = Some 1" and id2: "stg_id second_row = Some 1"
    by (simp_all add: first_row_def second_row_def)
  let ?w1 = "snd (load_upsert None (staged_world Map.empty [first_row]) sales_payload)"
  have a: "sales_daily ?w1 1 = Some (nonkey first_row)"
    by (rule load_upsert_overwrites_row [OF run [OF id1] csv _ id1]) simp
  have b: "sales_daily
     (snd (load_upsert None (staged_world (sales_daily ?w1) [second_row]) sales_payload)) 1 =
     Some (nonkey second_row)"
    by (rule load_upsert_overwrites_row [OF run [OF id2] csv _ id2]) simp
  have c: "nonkey second_row \<noteq> nonkey first_row"
    by (simp add: nonkey_def first_row_def second_row_def)
  from a b c ok [OF id1] ok [OF id2] show ?thesis by simp
qed

text \<open>
  C4. If the database work of \<^verbatim>\<open>load_upsert\<close> fails at any step, be it the connection,
  the staging table, the COPY, the merge or the commit, then the task fails and nothing
  is touched: the input file stays where it was, it is in neither the archive nor the
  error directory unless it was there before, the CSV is not deleted, and the table is
  as before.
\<close>

theorem database_failure_leaves_files:
  assumes "load_upsert fault w pl = (r, w')"
    and "fault \<noteq> None \<or> (\<exists>s d. r = Inl (DatabaseError s d))"
  shows "(\<exists>e. r = Inl e) \<and> fs w' = fs w \<and> sales_daily w' = sales_daily w"
proof (cases r)
  case (Inl e)
  from load_upsert_Inl [OF assms(1) [unfolded Inl]] show ?thesis
  proof
    assume "db_work fault w (tmp_csv pl) = Inl e \<and> w' = w"
    with Inl show ?thesis by simp
  next
    assume "\<exists>t. db_work fault w (tmp_csv pl) = Inr t \<and> e = FileNotFoundError (filepath pl)"
    then obtain t where t: "db_work fault w (tmp_csv pl) = Inr t"
      and e: "e = FileNotFoundError (filepath pl)"
      by blast
    from t have "fault = None" by (rule db_work_Inr)
    with assms(2) Inl e show ?thesis by simp
  qed
next
  case (Inr u)
  with assms(1) have "load_upsert fault w pl = (Inr (), w')" by simp
  then obtain t where "db_work fault w (tmp_csv pl) = Inr t" by (rule load_upsert_Inr)
  then have "fault = None" by (rule db_work_Inr)
  with assms(2) Inr show ?thesis by simp
qed

theorem database_failure_leaves_files_witness:
  "fst (load_upsert (Some Copy) (staged_world Map.empty [first_row]) sales_payload) =
     Inl (DatabaseError Copy Unavailable) \<and>
   fs (snd (load_upsert (Some Copy) (staged_world Map.empty [first_row]) sales_payload)) =
     fs (staged_world Map.empty [first_row]) \<and>
   fst (load_upsert None (staged_world Map.empty [first_row, second_row]) sales_payload) =
     Inl (DatabaseError Merge CardinalityViolation) \<and>
   fs (snd (load_upsert None (staged_world Map.empty [first_row, second_row]) sales_payload)) =
     fs (staged_world Map.empty [first_row, second_row]) \<and>
   fs (staged_world Map.empty [first_row, second_row]) sales_xlsx \<noteq> None \<and>
   fs (staged_world Map.empty [first_row, second_row]) sales_csv \<noteq> None"
proof -
  let ?a = "load_upsert (Some Copy) (staged_world Map.empty [first_row]) sales_payload"
  let ?b = "load_upsert None (staged_world Map.empty [first_row, second_row]) sales_payload"
  have fa: "fst ?a = Inl (DatabaseError Copy Unavailable)"
    by (simp add: load_defs path_defs)
  have fb: "fst ?b = Inl (DatabaseError Merge CardinalityViolation)"
    by (simp add: load_defs path_defs first_row_def second_row_def)
  have a: "?a = (fst ?a, snd ?a)" and b: "?b = (fst ?b, snd ?b)" by simp_all
  have "fs (snd ?a) = fs (staged_world Map.empty [first_row])"
    using database_failure_leaves_files [OF a] by simp
  moreover have "fs (snd ?b) = fs (staged_world Map.empty [first_row, second_row])"
    using database_failure_leaves_files [OF b] fb by simp
  moreover have "fs (staged_world Map.empty [first_row, second_row]) sales_xlsx \<noteq> None"
    "fs (staged_world Map.empty [first_row, second_row]) sales_csv \<noteq> None"
    by (simp_all add: staged_world_def path_defs)
  ultimately show ?thesis using fa fb by simp
qed

text \<open>
  C9. When \<^verbatim>\<open>load_upsert\<close> succeeds for an input file and a CSV that both lie in the
  incoming directory, the CSV is gone, the input file is gone from the incoming directory
  and sits in the archive directory under its own name, and no other path changes; in
  particular nothing appears in the error directory.
\<close>

theorem load_success_archives_file:
  assumes "load_upsert fault w pl = (Inr (), w')"
    and "parent (filepath pl) = INCOMING_DIR" and "parent (tmp_csv pl) = INCOMING_DIR"
  shows "fs w' (tmp_csv pl) = None \<and> fs w' (filepath pl) = None \<and>
         (\<exists>c. fs w (filepath pl) = Some c \<and>
              fs w' (in_dir ARCHIVE_DIR (name (filepath pl))) = Some c) \<and>
         (\<forall>q. q \<noteq> tmp_csv pl \<and> q \<noteq> filepath pl \<and>
              q \<noteq> in_dir ARCHIVE_DIR (name (filepath pl)) \<longrightarrow> fs w' q = fs w q) \<and>
         (\<forall>q. parent q = ERROR_DIR \<longrightarrow> fs w' q = fs w q)"
proof -
  let ?dst = "in_dir ARCHIVE_DIR (name (filepath pl))"
  from assms(1) obtain t c where
    c: "((fs w)(tmp_csv pl := None)) (filepath pl) = Some c" and
    w': "w' = w\<lparr>fs := ((fs w)(tmp_csv pl := None, filepath pl := None))(?dst \<mapsto> c),
              sales_daily := t\<rparr>"
    by (rule load_upsert_Inr)
  have d: "?dst \<noteq> tmp_csv pl" "?dst \<noteq> filepath pl"
    using assms(2,3) dirs_distinct(1) by (metis parent_in_dir)+
  have e: "q \<noteq> tmp_csv pl \<and> q \<noteq> filepath pl \<and> q \<noteq> ?dst" if "parent q = ERROR_DIR" for q
    using that assms(2,3) dirs_distinct(2,3) by (metis parent_in_dir)
  from c have src: "fs w (filepath pl) = Some c"
    by (simp split: if_splits)
  have "fs w' (tmp_csv pl) = None" "fs w' (filepath pl) = None"
    using d by (simp_all add: w')
  moreover have "fs w' ?dst = Some c" by (simp add: w')
  moreover have "\<forall>q. q \<noteq> tmp_csv pl \<and> q \<noteq> filepath pl \<and> q \<noteq> ?dst \<longrightarrow> fs w' q = fs w q"
    by (simp add: w')
  moreover have "\<forall>q. parent q = ERROR_DIR \<longrightarrow> fs w' q = fs w q"
    using e by (simp add: w')
  ultimately show ?thesis using src by blast
qed

theorem load_success_archives_file_witness:
  "fst (load_upsert None (staged_world Map.empty [first_row]) sales_payload) = Inr () \<and>
   parent (filepath sales_payload) = INCOMING_DIR \<and>
   parent (tmp_csv sales_payload) = INCOMING_DIR \<and>
   fs (snd (load_upsert None (staged_world Map.empty [first_row]) sales_payload)) sales_csv = None \<and>
   fs (snd (load_upsert None (staged_world Map.empty [first_row]) sales_payload)) sales_xlsx = None \<and>
   fs (snd (load_upsert None (staged_world Map.empty [first_row]) sales_payload))
     (in_dir ARCHIVE_DIR ''sales.xlsx'') = Some (Workbook sheet_negative_total)"
proof -
  let ?r = "load_upsert None (staged_world Map.empty [first_row]) sales_payload"
  have ok: "fst ?r = Inr ()"
    by (simp add: load_defs path_defs first_row_def)
  then have run: "?r = (Inr (), snd ?r)" by (metis prod.collapse)
  have p: "parent (filepath sales_payload) = INCOMING_DIR"
    "parent (tmp_csv sales_payload) = INCOMING_DIR"
    by (simp_all add: sales_payload_def sales_xlsx_def sales_csv_def in_dir_def)
  have src: "fs (staged_world Map.empty [first_row]) (filepath sales_payload) =
      Some (Workbook sheet_negative_total)"
    by (simp add: staged_world_def sales_payload_def path_defs)
  have n: "filepath sales_payload = sales_xlsx" "tmp_csv sales_payload = sales_csv"
    "name sales_xlsx = ''sales.xlsx''"
    by (simp_all add: sales_payload_def sales_xlsx_def in_dir_def)
  from load_success_archives_file [OF run p] src ok p show ?thesis
    by (simp add: n)
qed

text \<open>
  The same for one file run through both tasks: after \<^verbatim>\<open>validate_and_transform\<close> and
  \<^verbatim>\<open>load_upsert\<close> have both succeeded on a file of the incoming directory, the file is
  in the archive only, its CSV is gone and the error directory is as it was.
\<close>

lemma pipeline_success_files:
  assumes "validate_and_transform P w p = (Inr pl, w1)"
    and "load_upsert fault w1 pl = (Inr (), w2)" and "parent p = INCOMING_DIR"
  shows "fs w2 p = None \<and> fs w2 (tmp_csv pl) = None \<and>
         (\<exists>c. fs w p = Some c \<and> fs w2 (in_dir ARCHIVE_DIR (name p)) = Some c) \<and>
         (\<forall>q. parent q = ERROR_DIR \<longrightarrow> fs w2 q = fs w q)"
proof -
  let ?dst = "in_dir ARCHIVE_DIR (name p)"
  from assms(1) obtain out tmp where
    body: "transform_body P (fs w) p = Inr (tmp, out)" and
    pl: "pl = \<lparr>filepath = p, tmp_csv = tmp\<rparr>" and
    w1: "w1 = w\<lparr>fs := (fs w)(tmp \<mapsto> to_csv out)\<rparr>"
    by (rule validate_and_transform_Inr)
  from body have "with_suffix p ''.csv'' = Inr tmp"
    by (auto simp: transform_body_def and_then_eq_Inr)
  then have tmp: "parent tmp = INCOMING_DIR"
    using with_suffix_parent assms(3) by simp
  from assms(2) obtain t c where
    c: "((fs w1)(tmp := None)) p = Some c" and
    w2: "w2 = w1\<lparr>fs := ((fs w1)(tmp := None, p := None))(?dst \<mapsto> c), sales_daily := t\<rparr>"
    by (rule load_upsert_Inr) (simp add: pl)
  from c have ne: "p \<noteq> tmp" and src: "fs w p = Some c"
    by (auto simp: w1 split: if_splits)
  have d: "?dst \<noteq> tmp" "?dst \<noteq> p"
    using assms(3) tmp dirs_distinct(1) by (metis parent_in_dir)+
  have e: "q \<noteq> tmp \<and> q \<noteq> p \<and> q \<noteq> ?dst" if "parent q = ERROR_DIR" for q
    using that assms(3) tmp dirs_distinct(2,3) by (metis parent_in_dir)
  have "fs w2 p = None" "fs w2 (tmp_csv pl) = None"
    using d by (simp_all add: w2 pl)
  moreover have "fs w2 ?dst = Some c" by (simp add: w2)
  moreover have "\<forall>q. parent q = ERROR_DIR \<longrightarrow> fs w2 q = fs w q"
    using e by (simp add: w2 w1)
  ultimately show ?thesis using src by blast
qed

text \<open>
  One such run: the file with the negative total is transformed, loaded and archived,
  and its row is in the table.
\<close>

lemma pipeline_success_example:
  "fst (validate_and_transform strict_pandas (world_with (Workbook sheet_negative_total))
          sales_xlsx) = Inr sales_payload \<and>
   fs (snd (validate_and_transform strict_pandas (world_with (Workbook sheet_negative_total))
          sales_xlsx)) sales_csv =
     Some (Csv [\<lparr>stg_id = Some 1, stg_salescode = Some ''S1'',
                 stg_dateorder = Some (Date 2025 1 2), stg_totalsales = Some (- 5),
                 stg_brand = Some ''B''\<rparr>]) \<and>
   fst (load_upsert None
          (snd (validate_and_transform strict_pandas (world_with (Workbook sheet_negative_total))
             sales_xlsx)) sales_payload) = Inr () \<and>
   sales_daily (snd (load_upsert None
          (snd (validate_and_transform strict_pandas (world_with (Workbook sheet_negative_total))
             sales_xlsx)) sales_payload)) 1 =
     Some (Some ''S1'', Some (Date 2025 1 2), Some (- 5), Some ''B'')"
proof -
  let ?w = "world_with (Workbook sheet_negative_total)"
  have t: "transform strict_pandas sheet_negative_total =
     Inr [\<lparr>id_col = 1, salescode = ''S1'', dateorder = Some (Date 2025 1 2),
           totalsales = - 5, brand = Some ''B''\<rparr>]"
    by (simp add: sheet_negative_total_def ex_defs pd_defs tr_defs)
  have s: "with_suffix sales_xlsx ''.csv'' = Inr sales_csv"
    by (simp add: with_suffix_def suffix_def rfind_def sales_xlsx_def sales_csv_def in_dir_def)
  have b: "transform_body strict_pandas (fs ?w) sales_xlsx =
     Inr (sales_csv, [\<lparr>id_col = 1, salescode = ''S1'', dateorder = Some (Date 2025 1 2),
           totalsales = - 5, brand = Some ''B''\<rparr>])"
    by (simp add: transform_body_def read_excel_def world_with_def t s and_then_def)
  have v: "validate_and_transform strict_pandas ?w sales_xlsx =
     (Inr sales_payload,
      ?w\<lparr>fs := (fs ?w)(sales_csv \<mapsto> Csv [\<lparr>stg_id = Some 1, stg_salescode = Some ''S1'',
                 stg_dateorder = Some (Date 2025 1 2), stg_totalsales = Some (- 5),
                 stg_brand = Some ''B''\<rparr>])\<rparr>)"
    unfolding validate_and_transform_def b
    by (simp add: sales_payload_def to_csv_def csv_text_def)
  show ?thesis
    unfolding v
    by (simp add: load_upsert_def db_work_def reach_def open_file_def copy_expert_def move_def
        and_then_def sales_payload_def world_with_def nonkey_def path_defs)
qed

end
